theory Spec2Isabelle
  imports Complex_Main "HOL-Library.AList"
begin

section \<open>Certainty algebra\<close>

text \<open>
  The engine of \<^verbatim>\<open>working.py\<close> computes with Python floats. Certainty factors are
  modelled as real numbers: the arithmetic of \<^verbatim>\<open>cf_or\<close> is the exact one, rounding is
  not modelled. A Python exception is a value of type \<open>error\<close>; a function that can raise
  returns \<open>error + 'a\<close>, with \<open>Inl\<close> for the exception.
\<close>

datatype error =
    ZeroDivisionError
  | KeyError
  | ValueError
  | TypeError
  | AttributeError
  | EOFError
  | RecursionError

text \<open>The namespace \<^verbatim>\<open>class CF\<close>: true = 1.0, false = -1.0, unknown = 0.0, cutoff = 0.2.\<close>

definition CF_true :: real where
  "CF_true = 1"

definition CF_false :: real where
  "CF_false = - 1"

definition CF_unknown :: real where
  "CF_unknown = 0"

definition CF_cutoff :: real where
  "CF_cutoff = 2 / 10"

text \<open>
  \<^verbatim>\<open>cf_or\<close>: the third branch divides by \<^verbatim>\<open>1 - min(abs(a), abs(b))\<close>; on floats a zero
  divisor raises ZeroDivisionError, which the model returns as \<open>Inl\<close>.
\<close>

definition cf_or :: "real \<Rightarrow> real \<Rightarrow> error + real" where
  "cf_or a b =
     (if a > 0 \<and> b > 0 then Inr (a + b - a * b)
      else if a < 0 \<and> b < 0 then Inr (a + b + a * b)
      else if 1 - min \<bar>a\<bar> \<bar>b\<bar> = 0 then Inl ZeroDivisionError
      else Inr ((a + b) / (1 - min \<bar>a\<bar> \<bar>b\<bar>)))"

definition cf_and :: "real \<Rightarrow> real \<Rightarrow> real" where
  "cf_and a b = min a b"

definition is_cf :: "real \<Rightarrow> bool" where
  "is_cf x = (CF_false \<le> x \<and> x \<le> CF_true)"

definition cf_true :: "real \<Rightarrow> bool" where
  "cf_true x = (is_cf x \<and> x > CF_cutoff)"

definition cf_false :: "real \<Rightarrow> bool" where
  "cf_false x = (is_cf x \<and> x < CF_cutoff - 1)"

section \<open>Values, instances, conditions\<close>

text \<open>
  The values of parameters are Python strings (an enumerated parameter, or \<^verbatim>\<open>cls=str\<close>) and
  integers (\<^verbatim>\<open>cls=int\<close>). A Python bool is an integer (\<^verbatim>\<open>True == 1\<close>, with the same
  hash), so \<^verbatim>\<open>cls=boolean\<close> yields \<open>VInt 1\<close> or \<open>VInt 0\<close> as far as equality and dictionary
  keys go. An instance is the pair (context name, sequence number) of
  \<^verbatim>\<open>Context.instantiate\<close>.

  The operator of a condition is a first-class function in the source; here it is a
  total relation on values.
\<close>

datatype pyval = VStr string | VInt int

type_synonym inst = "string \<times> nat"

type_synonym oper = "pyval \<Rightarrow> pyval \<Rightarrow> bool"

type_synonym raw_condition = "string \<times> string \<times> oper \<times> pyval"

type_synonym condition = "string \<times> inst \<times> oper \<times> pyval"

text \<open>\<^verbatim>\<open>eq\<close> of the source (\<^verbatim>\<open>x == y\<close>).\<close>

definition eq :: oper where
  "eq x y = (x = y)"

section \<open>Fact store\<close>

text \<open>
  \<^verbatim>\<open>values\<close> is a dict from (parameter, instance) to a dict from value to CF. The inner
  dict is iterated by \<^verbatim>\<open>eval_condition\<close>, so it is an association list in insertion order
  (\<open>map_of\<close> reads it, \<open>AList.update\<close> is the assignment \<^verbatim>\<open>d[k] = v\<close>: in place for a
  key that is present, appended otherwise). The outer dict is only ever looked up by key.
  Every function returns the store it leaves behind, since \<^verbatim>\<open>setdefault\<close> mutates it.
\<close>

type_synonym vals = "(pyval \<times> real) list"

type_synonym store = "string \<times> inst \<Rightarrow> vals option"

text \<open>\<^verbatim>\<open>values.setdefault((param, inst), {})\<close>\<close>

definition get_vals :: "store \<Rightarrow> string \<Rightarrow> inst \<Rightarrow> vals \<times> store" where
  "get_vals values param inst =
     (case values (param, inst) of
        None \<Rightarrow> ([], values((param, inst) \<mapsto> []))
      | Some vs \<Rightarrow> (vs, values))"

text \<open>\<^verbatim>\<open>vals.setdefault(val, CF.unknown)\<close> on the dict returned by \<^verbatim>\<open>get_vals\<close>.\<close>

definition get_cf :: "store \<Rightarrow> string \<Rightarrow> inst \<Rightarrow> pyval \<Rightarrow> real \<times> store" where
  "get_cf values param inst val =
     (case get_vals values param inst of
        (vs, values1) \<Rightarrow>
          (case map_of vs val of
             None \<Rightarrow> (CF_unknown, values1((param, inst) \<mapsto> vs @ [(val, CF_unknown)]))
           | Some c \<Rightarrow> (c, values1)))"

text \<open>
  \<^verbatim>\<open>update_cf\<close>. When \<^verbatim>\<open>cf_or\<close> raises, the store is left as \<^verbatim>\<open>get_cf\<close> made it; the
  caller \<^verbatim>\<open>ask_values\<close> catches the exception and goes on with that store, so the result
  is the pair of the exception (if any) and the store.
\<close>

definition update_cf ::
  "store \<Rightarrow> string \<Rightarrow> inst \<Rightarrow> pyval \<Rightarrow> real \<Rightarrow> error option \<times> store" where
  "update_cf values param inst val c =
     (case get_cf values param inst val of
        (existing, values1) \<Rightarrow>
          (case cf_or existing c of
             Inl e \<Rightarrow> (Some e, values1)
           | Inr updated \<Rightarrow>
               (case get_vals values1 param inst of
                  (vs, values2) \<Rightarrow>
                    (None, values2((param, inst) \<mapsto> AList.update val updated vs)))))"

text \<open>Reading the store without changing it: the entry's dict, empty when absent, and the
  CF recorded for a value, unknown when absent.\<close>

definition vals_of :: "store \<Rightarrow> string \<times> inst \<Rightarrow> vals" where
  "vals_of values k = (case values k of None \<Rightarrow> [] | Some vs \<Rightarrow> vs)"

definition stored_cf :: "store \<Rightarrow> string \<Rightarrow> inst \<Rightarrow> pyval \<Rightarrow> real" where
  "stored_cf values param inst val =
     (case map_of (vals_of values (param, inst)) val of None \<Rightarrow> CF_unknown | Some c \<Rightarrow> c)"

section \<open>Properties of the certainty algebra\<close>

lemma cf_or_pos_bounds:
  assumes "0 < a" "a \<le> 1" "0 < b" "b \<le> (1::real)"
  shows "0 \<le> a + b - a * b" "a + b - a * b \<le> 1"
proof -
  have "0 \<le> (1 - a) * (1 - b)" using assms by (intro mult_nonneg_nonneg) auto
  then show "a + b - a * b \<le> 1" by (simp add: algebra_simps)
  have "0 \<le> b * (1 - a)" using assms by (intro mult_nonneg_nonneg) auto
  then have "a * b \<le> b" by (simp add: algebra_simps)
  then show "0 \<le> a + b - a * b" using assms by linarith
qed

lemma cf_or_neg_bounds:
  assumes "- 1 \<le> a" "a < 0" "- 1 \<le> b" "b < (0::real)"
  shows "- 1 \<le> a + b + a * b" "a + b + a * b \<le> 0"
proof -
  have "0 \<le> (1 + a) * (1 + b)" using assms by (intro mult_nonneg_nonneg) auto
  then show "- 1 \<le> a + b + a * b" by (simp add: algebra_simps)
  have "0 \<le> (- b) * (1 + a)" using assms by (intro mult_nonneg_nonneg) auto
  then have "b + a * b \<le> 0" by (simp add: algebra_simps)
  then show "a + b + a * b \<le> 0" using assms by linarith
qed

lemma cf_or_mixed_bounds:
  assumes "\<bar>a\<bar> \<le> 1" "\<bar>b\<bar> \<le> (1::real)" "\<not> (a > 0 \<and> b > 0)" "\<not> (a < 0 \<and> b < 0)"
    and "1 - min \<bar>a\<bar> \<bar>b\<bar> \<noteq> 0"
  shows "\<bar>(a + b) / (1 - min \<bar>a\<bar> \<bar>b\<bar>)\<bar> \<le> 1"
proof -
  define d where "d = 1 - min \<bar>a\<bar> \<bar>b\<bar>"
  have d: "0 < d" using assms unfolding d_def by linarith
  have "\<bar>a + b\<bar> \<le> d"
    using assms unfolding d_def by (auto simp: min_def abs_if split: if_splits)
  then have "\<bar>a + b\<bar> / d \<le> 1" using d by (simp add: divide_le_eq)
  moreover have "\<bar>(a + b) / d\<bar> = \<bar>a + b\<bar> / \<bar>d\<bar>" by (rule abs_divide)
  moreover have "\<bar>d\<bar> = d" using d by simp
  ultimately show ?thesis unfolding d_def by simp
qed

lemma cf_or_singular:
  assumes "- 1 \<le> a" "a \<le> 1" "- 1 \<le> b" "b \<le> (1::real)"
    and "\<not> (a > 0 \<and> b > 0)" "\<not> (a < 0 \<and> b < 0)" "1 - min \<bar>a\<bar> \<bar>b\<bar> = 0"
  shows "(a, b) = (1, - 1) \<or> (a, b) = (- 1, 1)"
  using assms by (auto simp: min_def abs_if split: if_splits)

lemma cf_or_in_range:
  assumes "- 1 \<le> a" "a \<le> 1" "- 1 \<le> b" "b \<le> 1" "cf_or a b = Inr c"
  shows "- 1 \<le> c \<and> c \<le> 1"
proof -
  consider "a > 0 \<and> b > 0" | "\<not> (a > 0 \<and> b > 0)" "a < 0 \<and> b < 0"
    | "\<not> (a > 0 \<and> b > 0)" "\<not> (a < 0 \<and> b < 0)" by blast
  then show ?thesis
  proof cases
    case 1
    then have "c = a + b - a * b" using assms(5) by (simp add: cf_or_def)
    then show ?thesis using cf_or_pos_bounds[of a b] 1 assms by simp
  next
    case 2
    then have "c = a + b + a * b" using assms(5) by (simp add: cf_or_def)
    then show ?thesis using cf_or_neg_bounds[of a b] 2 assms by simp
  next
    case 3
    then have nz: "1 - min \<bar>a\<bar> \<bar>b\<bar> \<noteq> 0" and c: "c = (a + b) / (1 - min \<bar>a\<bar> \<bar>b\<bar>)"
      using assms(5) by (auto simp: cf_or_def split: if_splits)
    have "\<bar>a\<bar> \<le> 1" "\<bar>b\<bar> \<le> 1" using assms by auto
    then have "\<bar>c\<bar> \<le> 1" using cf_or_mixed_bounds[of a b] 3 nz c by simp
    then show ?thesis by auto
  qed
qed


text \<open>
  C8. For certainty factors a, b in [-1, 1] other than the singular pairs (1, -1) and
  (-1, 1), \<open>cf_or a b\<close> is defined (no division by zero: whenever the third branch is the
  one taken, its divisor \<open>1 - min \<bar>a\<bar> \<bar>b\<bar>\<close> is not zero) and its result is again in [-1, 1].
\<close>

theorem cf_or_defined_and_bounded:
  assumes "- 1 \<le> a" "a \<le> 1" "- 1 \<le> b" "b \<le> 1"
    and "(a, b) \<noteq> (1, - 1)" "(a, b) \<noteq> (- 1, 1)"
  shows "(\<exists>c. cf_or a b = Inr c \<and> - 1 \<le> c \<and> c \<le> 1)
       \<and> (\<not> (a > 0 \<and> b > 0) \<and> \<not> (a < 0 \<and> b < 0) \<longrightarrow> 1 - min \<bar>a\<bar> \<bar>b\<bar> \<noteq> 0)"
proof -
  have nz: "\<not> (a > 0 \<and> b > 0) \<and> \<not> (a < 0 \<and> b < 0) \<longrightarrow> 1 - min \<bar>a\<bar> \<bar>b\<bar> \<noteq> 0"
    using cf_or_singular[of a b] assms by blast
  then have "\<exists>c. cf_or a b = Inr c" by (simp add: cf_or_def)
  then obtain c where c: "cf_or a b = Inr c" by blast
  then show ?thesis using cf_or_in_range[OF assms(1-4) c] nz by blast
qed

theorem cf_or_defined_and_bounded_witness:
  "cf_or (1 / 2) (- 1) = Inr (- 1) \<and> cf_or 1 0 = Inr 1 \<and> cf_or 1 1 = Inr 1
   \<and> (\<exists>c. cf_or (- 9 / 10) (1 / 2) = Inr c \<and> - 1 \<le> c \<and> c \<le> 1)"
proof -
  have "\<exists>c. cf_or (- 9 / 10) (1 / 2) = Inr c \<and> - 1 \<le> c \<and> c \<le> 1"
    using cf_or_defined_and_bounded[of "- 9 / 10" "1 / 2"] by simp
  moreover have "cf_or (1 / 2) (- 1) = Inr (- 1)" "cf_or 1 0 = Inr 1" "cf_or 1 1 = Inr 1"
    by (simp_all add: cf_or_def)
  ultimately show ?thesis by simp
qed

section \<open>Properties of the fact store\<close>

lemma get_vals_fst: "fst (get_vals values p i) = vals_of values (p, i)"
  by (simp add: get_vals_def vals_of_def split: option.splits)

lemma get_vals_vals_of: "vals_of (snd (get_vals values p i)) k = vals_of values k"
  by (simp add: get_vals_def vals_of_def split: option.splits)

lemma get_vals_present: "snd (get_vals values p i) (p, i) = Some (vals_of values (p, i))"
  by (simp add: get_vals_def vals_of_def split: option.splits)

lemma get_cf_fst: "fst (get_cf values p i v) = stored_cf values p i v"
  by (simp add: get_cf_def get_vals_def stored_cf_def vals_of_def split: option.splits)


lemma update_cf_unfold:
  "update_cf values p i v c =
     (case cf_or (stored_cf values p i v) c of
        Inl e \<Rightarrow> (Some e, snd (get_cf values p i v))
      | Inr u \<Rightarrow> (None, (snd (get_cf values p i v))((p, i) \<mapsto>
            AList.update v u (vals_of (snd (get_cf values p i v)) (p, i)))))"
  by (auto simp: update_cf_def get_cf_def get_vals_def stored_cf_def vals_of_def
      split: option.splits sum.splits prod.splits)






section \<open>Knowledge base: rules, contexts, parameters\<close>

text \<open>
  \<^verbatim>\<open>class Rule\<close>, \<^verbatim>\<open>class Context\<close> and \<^verbatim>\<open>class Parameter\<close>. The fields \<^verbatim>\<open>name\<close> of a
  context and of a parameter are \<open>ctx_name\<close> and \<open>param_name\<close>. The converter \<^verbatim>\<open>cls\<close> of a
  parameter is a function from the response text to a value, \<open>None\<close> where it raises.
\<close>

record rule =
  num :: int
  cf :: real
  raw_premises :: "raw_condition list"
  raw_conclusions :: "raw_condition list"

record ctxt =
  ctx_name :: string
  count :: nat
  initial_data :: "string list"
  goals :: "string list"

record parameter =
  param_name :: string
  ctx :: "string option"
  enum :: "string list option"
  cls :: "(string \<Rightarrow> pyval option) option"
  ask_first :: bool

text \<open>\<^verbatim>\<open>Context.instantiate\<close>: the instance and the context with its counter advanced.\<close>

definition ctx_instantiate :: "ctxt \<Rightarrow> inst \<times> ctxt" where
  "ctx_instantiate c = ((ctx_name c, count c), c\<lparr>count := count c + 1\<rparr>)"

text \<open>
  \<^verbatim>\<open>Parameter.from_string\<close>. An enumeration that is empty is falsy, like one that is
  absent; building the message of the ValueError from an absent enumeration raises
  TypeError instead.
\<close>

definition from_string :: "parameter \<Rightarrow> string \<Rightarrow> error + pyval" where
  "from_string p val =
     (case cls p of
        Some f \<Rightarrow> (case f val of None \<Rightarrow> Inl ValueError | Some v \<Rightarrow> Inr v)
      | None \<Rightarrow>
          (case enum p of
             Some e \<Rightarrow> if e \<noteq> [] \<and> val \<in> set e then Inr (VStr val) else Inl ValueError
           | None \<Rightarrow> Inl TypeError))"

text \<open>\<^verbatim>\<open>Parameter.type_string\<close>: the name of the class, or the enumeration.\<close>

datatype tydesc = ClassName | EnumOf "string list"

definition type_string :: "parameter \<Rightarrow> error + tydesc" where
  "type_string p =
     (case cls p of
        Some f \<Rightarrow> Inr ClassName
      | None \<Rightarrow> (case enum p of Some e \<Rightarrow> Inr (EnumOf e) | None \<Rightarrow> Inl TypeError))"

section \<open>The shell's state and the interaction port\<close>

text \<open>
  \<^verbatim>\<open>self.current_rule\<close> is None, one of the strings \<^verbatim>\<open>'initial'\<close> and \<^verbatim>\<open>'goal'\<close>, or a rule.
\<close>

datatype cur_rule = NoRule | Initial | Goal | TheRule rule

text \<open>
  What the shell sends to the port: the prompt of each \<^verbatim>\<open>read\<close> and the argument of each
  \<^verbatim>\<open>write\<close>. The rendering of rules and conditions as text is not modelled: a line
  carries the data it is rendered from.
  \<^item> \<open>Banner\<close>: the line written when \<^verbatim>\<open>execute\<close> begins;
  \<^item> \<open>HelpText\<close>: \<^verbatim>\<open>Shell.HELP\<close>;
  \<^item> \<open>InvalidResponse\<close>: \<^verbatim>\<open>'Invalid response. Type ? to see legal ones.'\<close>;
  \<^item> \<open>ItIsKnown\<close>, \<open>Therefore\<close>: \<^verbatim>\<open>'It is known that:'\<close>, \<^verbatim>\<open>'Therefore,'\<close>;
  \<^item> \<open>Prompt param inst\<close>: \<^verbatim>\<open>'What is the %s of %s-%d? '\<close>, the argument of \<^verbatim>\<open>read\<close>;
  \<^item> \<open>MustBeOfType param t\<close>: \<^verbatim>\<open>'%s must be of type %s'\<close>;
  \<^item> \<open>WhyAsked param\<close>: \<^verbatim>\<open>'Why is the value of %s being asked for?'\<close>;
  \<^item> \<open>IsOneOf param r\<close>: \<^verbatim>\<open>'%s is one of the %s parameters.'\<close>;
  \<^item> \<open>CondLine c\<close>: \<^verbatim>\<open>print_condition(c)\<close>;
  \<^item> \<open>ShowRule r\<close>: \<^verbatim>\<open>self.write(self.current_rule)\<close>;
  \<^item> \<open>ShowRemaining r cs\<close>: the clone of r whose premises are replaced by cs.
\<close>

datatype line =
    Banner
  | HelpText
  | InvalidResponse
  | ItIsKnown
  | Therefore
  | Prompt string inst
  | MustBeOfType string tydesc
  | WhyAsked string
  | IsOneOf string cur_rule
  | CondLine condition
  | ShowRule cur_rule
  | ShowRemaining rule "condition list"

text \<open>
  \<^verbatim>\<open>class Shell\<close>. \<open>known\<close> and \<open>asked\<close> hold pairs whose instance may be None
  (\<^verbatim>\<open>find_out\<close> falls back on \<^verbatim>\<open>self.current_inst\<close>, which is None before the first
  \<^verbatim>\<open>instantiate\<close>). The port is part of the state: \<open>inp\<close> is the sequence of
  responses \<^verbatim>\<open>self.read\<close> will return, in order, and \<open>out\<close> everything sent to the port so
  far. Reading past the last response raises (\<open>EOFError\<close>, as \<^verbatim>\<open>input\<close> does).
\<close>

record shell =
  rules :: "string \<Rightarrow> rule list option"
  contexts :: "string \<Rightarrow> ctxt option"
  params :: "string \<Rightarrow> parameter option"
  known :: "(string \<times> inst option) set"
  asked :: "(string \<times> inst option) set"
  known_values :: store
  current_inst :: "inst option"
  instances :: "string \<Rightarrow> inst option"
  current_rule :: cur_rule
  inp :: "string list"
  out :: "line list"

text \<open>The missing-value hook \<^verbatim>\<open>find_out(param, inst)\<close> and the observer \<^verbatim>\<open>track(rule)\<close>.\<close>

type_synonym hook = "string \<Rightarrow> inst \<Rightarrow> shell \<Rightarrow> error + (bool \<times> shell)"

type_synonym tracker = "rule \<Rightarrow> shell \<Rightarrow> shell"

text \<open>\<^verbatim>\<open>self.write(x)\<close>\<close>

definition write_line :: "line \<Rightarrow> shell \<Rightarrow> shell" where
  "write_line x s = s\<lparr>out := out s @ [x]\<rparr>"

section \<open>Rule engine\<close>

text \<open>
  The methods of \<^verbatim>\<open>class Rule\<close> are called with \<^verbatim>\<open>self.known_values\<close> and
  \<^verbatim>\<open>self.instances\<close> of the shell, which the hook mutates too: they work on the shell's
  state. \<^verbatim>\<open>Rule._bind_cond\<close> raises KeyError for a context with no instance.
\<close>

definition bind_cond :: "(string \<Rightarrow> inst option) \<Rightarrow> raw_condition \<Rightarrow> error + condition" where
  "bind_cond insts cond =
     (case cond of (param, cname, op, val) \<Rightarrow>
        (case insts cname of
           None \<Rightarrow> Inl KeyError
         | Some i \<Rightarrow> Inr (param, i, op, val)))"

fun bind_all :: "(string \<Rightarrow> inst option) \<Rightarrow> raw_condition list \<Rightarrow> error + condition list" where
  "bind_all insts [] = Inr []"
| "bind_all insts (cond # rest) =
     (case bind_cond insts cond of
        Inl e \<Rightarrow> Inl e
      | Inr b \<Rightarrow> (case bind_all insts rest of Inl e \<Rightarrow> Inl e | Inr bs \<Rightarrow> Inr (b # bs)))"

definition rule_premises :: "rule \<Rightarrow> (string \<Rightarrow> inst option) \<Rightarrow> error + condition list" where
  "rule_premises r insts = bind_all insts (raw_premises r)"

definition rule_conclusions :: "rule \<Rightarrow> (string \<Rightarrow> inst option) \<Rightarrow> error + condition list" where
  "rule_conclusions r insts = bind_all insts (raw_conclusions r)"

text \<open>
  \<^verbatim>\<open>eval_condition\<close> without a hook: the plain sum of the CFs of the recorded values that
  the operator relates to the target value.
\<close>

definition eval_condition :: "condition \<Rightarrow> vals \<Rightarrow> real" where
  "eval_condition cond values =
     (case cond of (param, inst, op, val) \<Rightarrow>
        sum_list (map snd (filter (\<lambda>(known_val, c). op known_val val) values)))"

text \<open>
  \<^verbatim>\<open>eval_condition(premise, vals, find_out)\<close> as the second pass calls it. \<^verbatim>\<open>vals\<close> is the
  dict stored at (param, inst), fetched by \<^verbatim>\<open>get_vals\<close> just before; the hook mutates that
  same dict, so the sum runs over the entry as it is after the hook has returned.
\<close>

definition eval_condition_hook ::
  "condition \<Rightarrow> hook option \<Rightarrow> shell \<Rightarrow> error + (real \<times> shell)" where
  "eval_condition_hook cond find_out s =
     (case cond of (param, inst, op, val) \<Rightarrow>
        (case find_out of
           None \<Rightarrow> Inr (eval_condition cond (vals_of (known_values s) (param, inst)), s)
         | Some f \<Rightarrow>
             (case f param inst s of
                Inl e \<Rightarrow> Inl e
              | Inr (found, s1) \<Rightarrow>
                  Inr (eval_condition cond (vals_of (known_values s1) (param, inst)), s1))))"

text \<open>
  The first loop of \<^verbatim>\<open>Rule.applicable\<close>: \<open>True\<close> when it returns \<^verbatim>\<open>CF.false\<close> at a premise
  that is false on the facts at hand.
\<close>

fun first_pass :: "condition list \<Rightarrow> store \<Rightarrow> bool \<times> store" where
  "first_pass [] values = (False, values)"
| "first_pass (premise # rest) values =
     (case premise of (param, inst, op, val) \<Rightarrow>
        (case get_vals values param inst of
           (vs, values1) \<Rightarrow>
             if cf_false (eval_condition premise vs) then (True, values1)
             else first_pass rest values1))"

text \<open>The second loop of \<^verbatim>\<open>Rule.applicable\<close>, with the running \<^verbatim>\<open>total_cf\<close>.\<close>

fun second_pass ::
  "hook option \<Rightarrow> condition list \<Rightarrow> real \<Rightarrow> shell \<Rightarrow> error + (real \<times> shell)" where
  "second_pass find_out [] total_cf s = Inr (total_cf, s)"
| "second_pass find_out (premise # rest) total_cf s =
     (case premise of (param, inst, op, val) \<Rightarrow>
        (case get_vals (known_values s) param inst of
           (vs, values1) \<Rightarrow>
             (case eval_condition_hook premise find_out (s\<lparr>known_values := values1\<rparr>) of
                Inl e \<Rightarrow> Inl e
              | Inr (c, s1) \<Rightarrow>
                  if \<not> cf_true (cf_and total_cf c) then Inr (CF_false, s1)
                  else second_pass find_out rest (cf_and total_cf c) s1)))"

definition rule_applicable :: "rule \<Rightarrow> hook option \<Rightarrow> shell \<Rightarrow> error + (real \<times> shell)" where
  "rule_applicable r find_out s =
     (case rule_premises r (instances s) of
        Inl e \<Rightarrow> Inl e
      | Inr prems \<Rightarrow>
          (case first_pass prems (known_values s) of
             (True, values1) \<Rightarrow> Inr (CF_false, s\<lparr>known_values := values1\<rparr>)
           | (False, values1) \<Rightarrow>
               (case rule_premises r (instances s) of
                  Inl e \<Rightarrow> Inl e
                | Inr prems2 \<Rightarrow>
                    second_pass find_out prems2 CF_true (s\<lparr>known_values := values1\<rparr>))))"

text \<open>The loop over the conclusions in \<^verbatim>\<open>Rule.apply\<close>; an exception of \<^verbatim>\<open>update_cf\<close>
  leaves the loop.\<close>

fun conclude :: "condition list \<Rightarrow> real \<Rightarrow> store \<Rightarrow> error + store" where
  "conclude [] c values = Inr values"
| "conclude (conclusion # rest) c values =
     (case conclusion of (param, inst, op, val) \<Rightarrow>
        (case update_cf values param inst val c of
           (Some e, values1) \<Rightarrow> Inl e
         | (None, values1) \<Rightarrow> conclude rest c values1))"

text \<open>\<^verbatim>\<open>Rule.apply\<close>\<close>

definition rule_apply ::
  "rule \<Rightarrow> hook option \<Rightarrow> tracker option \<Rightarrow> shell \<Rightarrow> error + (bool \<times> shell)" where
  "rule_apply r find_out track s =
     (case rule_applicable r find_out (case track of None \<Rightarrow> s | Some t \<Rightarrow> t r s) of
        Inl e \<Rightarrow> Inl e
      | Inr (a, s1) \<Rightarrow>
          if \<not> cf_true (cf r * a) then Inr (False, s1)
          else
            (case rule_conclusions r (instances s1) of
               Inl e \<Rightarrow> Inl e
             | Inr concls \<Rightarrow>
                 (case conclude concls (cf r * a) (known_values s1) of
                    Inl e \<Rightarrow> Inl e
                  | Inr values1 \<Rightarrow> Inr (True, s1\<lparr>known_values := values1\<rparr>))))"

text \<open>
  \<^verbatim>\<open>use_rules\<close>: the list comprehension \<^verbatim>\<open>[rule.apply(...) for rule in rules]\<close> is built
  first, one call per rule, and \<^verbatim>\<open>any\<close> then reads the finished list.
\<close>

fun apply_each ::
  "rule list \<Rightarrow> hook option \<Rightarrow> tracker option \<Rightarrow> shell \<Rightarrow> error + (bool list \<times> shell)" where
  "apply_each [] find_out track s = Inr ([], s)"
| "apply_each (r # rs) find_out track s =
     (case rule_apply r find_out track s of
        Inl e \<Rightarrow> Inl e
      | Inr (b, s1) \<Rightarrow>
          (case apply_each rs find_out track s1 of
             Inl e \<Rightarrow> Inl e
           | Inr (bs, s2) \<Rightarrow> Inr (b # bs, s2)))"

definition use_rules ::
  "rule list \<Rightarrow> hook option \<Rightarrow> tracker option \<Rightarrow> shell \<Rightarrow> error + (bool \<times> shell)" where
  "use_rules rs find_out track_rules s =
     (case apply_each rs find_out track_rules s of
        Inl e \<Rightarrow> Inl e
      | Inr (bs, s1) \<Rightarrow> Inr (list_ex (\<lambda>b. b) bs, s1))"

section \<open>Parsing a response\<close>

text \<open>
  The string methods \<^verbatim>\<open>parse_reply\<close> uses, on strings as lists of characters.
  \<^verbatim>\<open>str.split(sep)\<close> with a separator of one character cuts at every occurrence and keeps
  the empty pieces; \<^verbatim>\<open>str.strip()\<close> removes the ASCII white space at both ends.
\<close>

fun split_on :: "char \<Rightarrow> string \<Rightarrow> string list" where
  "split_on sep [] = [[]]"
| "split_on sep (c # cs) =
     (if c = sep then [] # split_on sep cs
      else (case split_on sep cs of [] \<Rightarrow> [[c]] | w # ws \<Rightarrow> (c # w) # ws))"

definition is_space :: "char \<Rightarrow> bool" where
  "is_space c = (c \<in> set [CHR '' '', CHR 0x09, CHR 0x0A, CHR 0x0B, CHR 0x0C, CHR 0x0D,
                           CHR 0x1C, CHR 0x1D, CHR 0x1E, CHR 0x1F])"

definition strip :: "string \<Rightarrow> string" where
  "strip s = rev (dropWhile is_space (rev (dropWhile is_space s)))"

text \<open>
  The builtins \<^verbatim>\<open>int\<close> and \<^verbatim>\<open>float\<close> on the plain decimal literals: white space around, an
  optional sign, digits, and for \<^verbatim>\<open>float\<close> an optional point. \<open>None\<close> stands for
  ValueError. The other spellings Python accepts (an exponent, underscores between
  digits, \<^verbatim>\<open>inf\<close>, \<^verbatim>\<open>nan\<close>) are not literals of the model: it answers \<open>None\<close> for them.
\<close>

definition digit_of :: "char \<Rightarrow> nat option" where
  "digit_of c =
     map_of [(CHR ''0'', 0), (CHR ''1'', 1), (CHR ''2'', 2), (CHR ''3'', 3), (CHR ''4'', 4),
             (CHR ''5'', 5), (CHR ''6'', 6), (CHR ''7'', 7), (CHR ''8'', 8), (CHR ''9'', 9)] c"

fun digits_val :: "string \<Rightarrow> nat \<Rightarrow> nat option" where
  "digits_val [] acc = Some acc"
| "digits_val (c # cs) acc =
     (case digit_of c of None \<Rightarrow> None | Some d \<Rightarrow> digits_val cs (10 * acc + d))"

definition split_sign :: "string \<Rightarrow> bool \<times> string" where
  "split_sign s =
     (case s of
        [] \<Rightarrow> (False, [])
      | c # cs \<Rightarrow>
          if c = CHR ''-'' then (True, cs)
          else if c = CHR ''+'' then (False, cs)
          else (False, s))"

definition py_int :: "string \<Rightarrow> pyval option" where
  "py_int s =
     (case split_sign (strip s) of
        (neg, ds) \<Rightarrow>
          if ds = [] then None
          else
            (case digits_val ds 0 of
               None \<Rightarrow> None
             | Some n \<Rightarrow> Some (VInt (if neg then - int n else int n))))"

definition py_float :: "string \<Rightarrow> real option" where
  "py_float s =
     (case split_sign (strip s) of
        (neg, body) \<Rightarrow>
          (case split_on CHR ''.'' body of
             [ip] \<Rightarrow>
               if ip = [] then None
               else
                 (case digits_val ip 0 of
                    None \<Rightarrow> None
                  | Some n \<Rightarrow> Some (if neg then - real n else real n))
           | [ip, fp] \<Rightarrow>
               if ip @ fp = [] then None
               else
                 (case digits_val (ip @ fp) 0 of
                    None \<Rightarrow> None
                  | Some n \<Rightarrow>
                      Some (if neg then - (real n / 10 ^ length fp)
                            else real n / 10 ^ length fp))
           | _ \<Rightarrow> None))"

text \<open>
  \<^verbatim>\<open>parse_reply\<close>. In the loop over the pairs, unpacking
  \<^verbatim>\<open>val, cf = pair.strip().split(' ')\<close> raises ValueError unless there are exactly two
  pieces; \<^verbatim>\<open>param.from_string(val)\<close> is evaluated before \<^verbatim>\<open>float(cf)\<close>.
\<close>

fun parse_pairs :: "parameter \<Rightarrow> string list \<Rightarrow> error + (pyval \<times> real) list" where
  "parse_pairs p [] = Inr []"
| "parse_pairs p (pair # rest) =
     (case split_on CHR '' '' (strip pair) of
        [val, tok] \<Rightarrow>
          (case from_string p val of
             Inl e \<Rightarrow> Inl e
           | Inr v \<Rightarrow>
               (case py_float tok of
                  None \<Rightarrow> Inl ValueError
                | Some c \<Rightarrow>
                    (case parse_pairs p rest of
                       Inl e \<Rightarrow> Inl e
                     | Inr vs \<Rightarrow> Inr ((v, c) # vs))))
      | _ \<Rightarrow> Inl ValueError)"

definition parse_reply :: "parameter \<Rightarrow> string \<Rightarrow> error + (pyval \<times> real) list" where
  "parse_reply p reply =
     (if CHR '','' \<in> set reply then parse_pairs p (split_on CHR '','' reply)
      else (case from_string p reply of Inl e \<Rightarrow> Inl e | Inr v \<Rightarrow> Inr [(v, CF_true)]))"

section \<open>Shell\<close>

text \<open>\<^verbatim>\<open>Shell.clear\<close>\<close>

definition clear :: "shell \<Rightarrow> shell" where
  "clear s = s\<lparr>known := {}, asked := {}, known_values := Map.empty, current_inst := None,
               current_rule := NoRule, instances := Map.empty\<rparr>"

text \<open>\<^verbatim>\<open>Shell.define_rule\<close>: one \<^verbatim>\<open>append\<close> per conclusion of the rule.\<close>

definition define_rule :: "rule \<Rightarrow> shell \<Rightarrow> shell" where
  "define_rule r s =
     foldl (\<lambda>s1 cond. case cond of (param, cname, op, val) \<Rightarrow>
              s1\<lparr>rules := (rules s1)(param \<mapsto>
                    (case rules s1 param of None \<Rightarrow> [] | Some l \<Rightarrow> l) @ [r])\<rparr>)
       s (raw_conclusions r)"

definition define_context :: "ctxt \<Rightarrow> shell \<Rightarrow> shell" where
  "define_context c s = s\<lparr>contexts := (contexts s)(ctx_name c \<mapsto> c)\<rparr>"

definition define_param :: "parameter \<Rightarrow> shell \<Rightarrow> shell" where
  "define_param p s = s\<lparr>params := (params s)(param_name p \<mapsto> p)\<rparr>"

text \<open>\<^verbatim>\<open>self.rules.setdefault(param, [])\<close>\<close>

definition get_rules :: "string \<Rightarrow> shell \<Rightarrow> rule list \<times> shell" where
  "get_rules param s =
     (case rules s param of
        None \<Rightarrow> ([], s\<lparr>rules := (rules s)(param \<mapsto> [])\<rparr>)
      | Some l \<Rightarrow> (l, s))"

text \<open>\<^verbatim>\<open>Shell.instantiate\<close>; the context's counter advances in \<^verbatim>\<open>self.contexts\<close>.\<close>

definition instantiate :: "string \<Rightarrow> shell \<Rightarrow> error + (inst \<times> shell)" where
  "instantiate cname s =
     (case contexts s cname of
        None \<Rightarrow> Inl KeyError
      | Some c \<Rightarrow>
          (case ctx_instantiate c of
             (i, c1) \<Rightarrow>
               Inr (i, s\<lparr>contexts := (contexts s)(cname \<mapsto> c1),
                         current_inst := Some i,
                         instances := (instances s)(cname \<mapsto> i)\<rparr>)))"

text \<open>\<^verbatim>\<open>self.params.setdefault(name, Parameter(name))\<close>\<close>

definition get_param :: "string \<Rightarrow> shell \<Rightarrow> parameter \<times> shell" where
  "get_param name s =
     (case params s name of
        None \<Rightarrow>
          (\<lparr>param_name = name, ctx = None, enum = None, cls = None, ask_first = False\<rparr>,
           s\<lparr>params := (params s)(name \<mapsto>
                \<lparr>param_name = name, ctx = None, enum = None, cls = None,
                 ask_first = False\<rparr>)\<rparr>)
      | Some p \<Rightarrow> (p, s))"

definition set_current_rule :: "cur_rule \<Rightarrow> shell \<Rightarrow> shell" where
  "set_current_rule r s = s\<lparr>current_rule := r\<rparr>"

text \<open>
  \<^verbatim>\<open>Shell.print_why\<close>. The loop sorts the bound premises of the current rule into those
  that are true on the facts at hand and the others; with no current rule, reading its
  premises raises AttributeError.
\<close>

fun sort_premises :: "condition list \<Rightarrow> store \<Rightarrow> condition list \<times> condition list \<times> store" where
  "sort_premises [] values = ([], [], values)"
| "sort_premises (premise # rest) values =
     (case premise of (param, inst, op, val) \<Rightarrow>
        (case get_vals values param inst of
           (vs, values1) \<Rightarrow>
             (case sort_premises rest values1 of
                (kn, un, values2) \<Rightarrow>
                  if cf_true (eval_condition premise vs) then (premise # kn, un, values2)
                  else (kn, premise # un, values2))))"

definition print_why :: "string \<Rightarrow> shell \<Rightarrow> error + shell" where
  "print_why param s =
     (case current_rule s of
        Initial \<Rightarrow> Inr (write_line (IsOneOf param Initial) (write_line (WhyAsked param) s))
      | Goal \<Rightarrow> Inr (write_line (IsOneOf param Goal) (write_line (WhyAsked param) s))
      | NoRule \<Rightarrow> Inl AttributeError
      | TheRule r \<Rightarrow>
          (case rule_premises r (instances s) of
             Inl e \<Rightarrow> Inl e
           | Inr prems \<Rightarrow>
               (case sort_premises prems (known_values s) of
                  (kn, un, values1) \<Rightarrow>
                    Inr (write_line (ShowRemaining r un)
                          ((if kn \<noteq> []
                            then write_line Therefore
                                   (foldl (\<lambda>s1 c. write_line (CondLine c) s1)
                                      (write_line ItIsKnown
                                         (write_line (WhyAsked param) s)) kn)
                            else write_line (WhyAsked param) s)
                           \<lparr>known_values := values1\<rparr>)))))"

text \<open>The loop of \<^verbatim>\<open>ask_values\<close> over the values \<^verbatim>\<open>parse_reply\<close> returned; the exception
  of \<^verbatim>\<open>update_cf\<close> is caught by the caller, with the store as it is then.\<close>

fun update_all :: "store \<Rightarrow> string \<Rightarrow> inst \<Rightarrow> (pyval \<times> real) list \<Rightarrow> error option \<times> store" where
  "update_all values param inst [] = (None, values)"
| "update_all values param inst ((val, c) # rest) =
     (case update_cf values param inst val c of
        (Some e, values1) \<Rightarrow> (Some e, values1)
      | (None, values1) \<Rightarrow> update_all values1 param inst rest)"

text \<open>
  The \<^verbatim>\<open>while True\<close> loop of \<^verbatim>\<open>ask_values\<close>. Each round reads one response, so the loop
  is a recursion over the responses still to come, \<open>resps\<close> (the field \<open>inp\<close> of the
  state follows it). The bare \<^verbatim>\<open>except\<close> catches what \<^verbatim>\<open>parse_reply\<close> and \<^verbatim>\<open>update_cf\<close>
  raise.
\<close>

fun ask_loop :: "string \<Rightarrow> inst \<Rightarrow> string list \<Rightarrow> shell \<Rightarrow> error + (bool \<times> shell)" where
  "ask_loop param inst [] s = Inl EOFError"
| "ask_loop param inst (resp # resps) s =
     (if resp = [] then
        ask_loop param inst resps (s\<lparr>inp := resps, out := out s @ [Prompt param inst]\<rparr>)
      else if resp = ''unknown'' then
        Inr (False, s\<lparr>inp := resps, out := out s @ [Prompt param inst]\<rparr>)
      else if resp = ''help'' then
        ask_loop param inst resps
          (write_line HelpText (s\<lparr>inp := resps, out := out s @ [Prompt param inst]\<rparr>))
      else if resp = ''why'' then
        (case print_why param (s\<lparr>inp := resps, out := out s @ [Prompt param inst]\<rparr>) of
           Inl e \<Rightarrow> Inl e
         | Inr s1 \<Rightarrow> ask_loop param inst resps s1)
      else if resp = ''rule'' then
        ask_loop param inst resps
          (write_line (ShowRule (current_rule s))
             (s\<lparr>inp := resps, out := out s @ [Prompt param inst]\<rparr>))
      else if resp = ''?'' then
        (case get_param param (s\<lparr>inp := resps, out := out s @ [Prompt param inst]\<rparr>) of
           (p, s1) \<Rightarrow>
             (case type_string p of
                Inl e \<Rightarrow> Inl e
              | Inr t \<Rightarrow> ask_loop param inst resps (write_line (MustBeOfType param t) s1)))
      else
        (case get_param param (s\<lparr>inp := resps, out := out s @ [Prompt param inst]\<rparr>) of
           (p, s1) \<Rightarrow>
             (case parse_reply p resp of
                Inl e \<Rightarrow> ask_loop param inst resps (write_line InvalidResponse s1)
              | Inr pairs \<Rightarrow>
                  (case update_all (known_values s1) param inst pairs of
                     (Some e, values1) \<Rightarrow>
                       ask_loop param inst resps
                         (write_line InvalidResponse (s1\<lparr>known_values := values1\<rparr>))
                   | (None, values1) \<Rightarrow> Inr (True, s1\<lparr>known_values := values1\<rparr>)))))"

text \<open>
  \<^verbatim>\<open>Shell.ask_values\<close>. The source returns None for a pair already asked, which its
  callers treat as False. Formatting the prompt with an instance that is None raises
  TypeError, after the pair has been marked as asked.
\<close>

definition ask_values :: "string \<Rightarrow> inst option \<Rightarrow> shell \<Rightarrow> error + (bool \<times> shell)" where
  "ask_values param inst s =
     (if (param, inst) \<in> asked s then Inr (False, s)
      else
        (case inst of
           None \<Rightarrow> Inl TypeError
         | Some i \<Rightarrow> ask_loop param i (inp s) (s\<lparr>asked := insert (param, inst) (asked s)\<rparr>)))"

text \<open>
  The body of \<^verbatim>\<open>Shell.find_out\<close>, with the recursive call (the hook the rules receive)
  as the parameter \<open>self_find_out\<close>. \<open>rules_path\<close> is the local function \<^verbatim>\<open>rules()\<close>.
\<close>

definition rules_path :: "hook \<Rightarrow> string \<Rightarrow> shell \<Rightarrow> error + (bool \<times> shell)" where
  "rules_path self_find_out param s =
     (case get_rules param s of
        (rs, s1) \<Rightarrow>
          use_rules rs (Some self_find_out) (Some (\<lambda>r. set_current_rule (TheRule r))) s1)"

definition mark_known :: "string \<Rightarrow> inst option \<Rightarrow> bool \<times> shell \<Rightarrow> bool \<times> shell" where
  "mark_known param inst r =
     (case r of (success, s) \<Rightarrow>
        if success then (True, s\<lparr>known := insert (param, inst) (known s)\<rparr>) else (False, s))"

definition find_out_body ::
  "hook \<Rightarrow> string \<Rightarrow> inst option \<Rightarrow> shell \<Rightarrow> error + (bool \<times> shell)" where
  "find_out_body self_find_out param inst0 s =
     (case (case inst0 of Some i \<Rightarrow> Some i | None \<Rightarrow> current_inst s) of inst \<Rightarrow>
        if (param, inst) \<in> known s then Inr (True, s)
        else
          (case get_param param s of
             (p, s1) \<Rightarrow>
               if ask_first p then
                 (case ask_values param inst s1 of
                    Inl e \<Rightarrow> Inl e
                  | Inr (True, s2) \<Rightarrow> Inr (mark_known param inst (True, s2))
                  | Inr (False, s2) \<Rightarrow>
                      (case rules_path self_find_out param s2 of
                         Inl e \<Rightarrow> Inl e
                       | Inr r \<Rightarrow> Inr (mark_known param inst r)))
               else
                 (case rules_path self_find_out param s1 of
                    Inl e \<Rightarrow> Inl e
                  | Inr (True, s2) \<Rightarrow> Inr (mark_known param inst (True, s2))
                  | Inr (False, s2) \<Rightarrow>
                      (case ask_values param inst s2 of
                         Inl e \<Rightarrow> Inl e
                       | Inr r \<Rightarrow> Inr (mark_known param inst r)))))"

text \<open>
  \<^verbatim>\<open>Shell.find_out\<close>. The recursion through the premises of the rules is not bounded by
  the source (a cycle among the rules recurses until Python raises RecursionError). The
  first argument is the number of nested calls allowed below this one; a call beyond it
  is \<open>Inl RecursionError\<close>.
\<close>

primrec find_out :: "nat \<Rightarrow> string \<Rightarrow> inst option \<Rightarrow> shell \<Rightarrow> error + (bool \<times> shell)" where
  "find_out 0 =
     find_out_body (\<lambda>param inst s. Inl RecursionError)"
| "find_out (Suc n) =
     find_out_body (\<lambda>param inst s. find_out n param (Some inst) s)"

text \<open>The loops \<^verbatim>\<open>for param in ...: self.find_out(param)\<close> of \<^verbatim>\<open>execute\<close>.\<close>

fun find_out_each :: "nat \<Rightarrow> string list \<Rightarrow> shell \<Rightarrow> error + shell" where
  "find_out_each n [] s = Inr s"
| "find_out_each n (param # rest) s =
     (case find_out n param None s of
        Inl e \<Rightarrow> Inl e
      | Inr (found, s1) \<Rightarrow> find_out_each n rest s1)"

text \<open>
  \<^verbatim>\<open>Shell.execute\<close>. \<^verbatim>\<open>result[param] = get_vals(...)\<close> stores a reference to the dict of
  the fact store, not a copy: what the caller reads in the returned mapping is that
  dict as it is when \<^verbatim>\<open>execute\<close> returns. While the loop runs, the result of an instance
  is therefore the list of its keys, in the order of a dict (\<open>AList.update\<close>), each
  standing for the entry (param, instance) of the store; \<open>deref\<close> reads the entries
  at the end.
\<close>

type_synonym results = "(inst \<times> (string \<times> vals) list) list"

fun snapshot :: "string list \<Rightarrow> inst \<Rightarrow> (string \<times> unit) list \<Rightarrow> store
                   \<Rightarrow> (string \<times> unit) list \<times> store" where
  "snapshot [] i result values = (result, values)"
| "snapshot (param # rest) i result values =
     (case get_vals values param i of
        (vs, values1) \<Rightarrow> snapshot rest i (AList.update param () result) values1)"

fun execute_loop ::
  "nat \<Rightarrow> string list \<Rightarrow> (inst \<times> string list) list \<Rightarrow> shell
     \<Rightarrow> error + ((inst \<times> string list) list \<times> shell)" where
  "execute_loop n [] res s = Inr (res, s)"
| "execute_loop n (cname # rest) res s =
     (case contexts s cname of
        None \<Rightarrow> Inl KeyError
      | Some c \<Rightarrow>
          (case instantiate cname s of
             Inl e \<Rightarrow> Inl e
           | Inr (i0, s1) \<Rightarrow>
               (case find_out_each n (initial_data c) (set_current_rule Initial s1) of
                  Inl e \<Rightarrow> Inl e
                | Inr s2 \<Rightarrow>
                    (case find_out_each n (goals c) (set_current_rule Goal s2) of
                       Inl e \<Rightarrow> Inl e
                     | Inr s3 \<Rightarrow>
                         if goals c \<noteq> [] then
                           (case current_inst s3 of
                              None \<Rightarrow> Inl TypeError
                            | Some i \<Rightarrow>
                                (case snapshot (goals c) i [] (known_values s3) of
                                   (result, values1) \<Rightarrow>
                                     execute_loop n rest
                                       (AList.update i (map fst result) res)
                                       (s3\<lparr>known_values := values1\<rparr>)))
                         else execute_loop n rest res s3))))"

definition deref :: "store \<Rightarrow> (inst \<times> string list) list \<Rightarrow> results" where
  "deref values res =
     map (\<lambda>(i, ps). (i, map (\<lambda>param. (param, vals_of values (param, i))) ps)) res"

definition execute :: "nat \<Rightarrow> string list \<Rightarrow> shell \<Rightarrow> error + (results \<times> shell)" where
  "execute n context_names s =
     (case execute_loop n context_names [] (clear (write_line Banner s)) of
        Inl e \<Rightarrow> Inl e
      | Inr (res, s1) \<Rightarrow> Inr (deref (known_values s1) res, s1))"

section \<open>Sessions and rules the theorems are tried on\<close>

text \<open>\<^verbatim>\<open>Shell()\<close>, with a port that has no response to give and has been sent nothing.\<close>

definition empty_shell :: shell where
  "empty_shell = \<lparr>rules = Map.empty, contexts = Map.empty, params = Map.empty, known = {},
     asked = {}, known_values = Map.empty, current_inst = None, instances = Map.empty,
     current_rule = NoRule, inp = [], out = []\<rparr>"

text \<open>
  The session state once a context c has been instantiated (the current instance and the
  binding of c to it), with nothing known yet; two rules without premises that conclude
  hi and lo for y; a rule with one premise on x.
\<close>

definition session_c :: shell where
  "session_c = empty_shell\<lparr>current_inst := Some (''c'', 0), instances := [''c'' \<mapsto> (''c'', 0)]\<rparr>"

definition rule_hi :: rule where
  "rule_hi = \<lparr>num = 1, cf = 1 / 2, raw_premises = [],
     raw_conclusions = [(''y'', ''c'', eq, VStr ''hi'')]\<rparr>"

definition rule_lo :: rule where
  "rule_lo = \<lparr>num = 2, cf = 1 / 2, raw_premises = [],
     raw_conclusions = [(''y'', ''c'', eq, VStr ''lo'')]\<rparr>"

definition rule_x :: rule where
  "rule_x = \<lparr>num = 3, cf = 9 / 10, raw_premises = [(''x'', ''c'', eq, VInt 1)],
     raw_conclusions = [(''y'', ''c'', eq, VStr ''hi'')]\<rparr>"

text \<open>A rule with the premises [A, B, D], and a session whose facts make A false.\<close>

definition rule_abc :: rule where
  "rule_abc = \<lparr>num = 4, cf = 9 / 10,
     raw_premises = [(''a'', ''c'', eq, VStr ''yes''), (''b'', ''c'', eq, VStr ''yes''),
                     (''d'', ''c'', eq, VStr ''yes'')],
     raw_conclusions = [(''y'', ''c'', eq, VStr ''hi'')]\<rparr>"

definition session_a :: shell where
  "session_a = session_c\<lparr>known_values := [(''a'', (''c'', 0)) \<mapsto> [(VStr ''yes'', - 1)]]\<rparr>"

text \<open>A session in which x of the instance c-0 is known already.\<close>

definition session_k :: shell where
  "session_k = session_c\<lparr>known := {(''x'', Some (''c'', 0))}\<rparr>"

text \<open>
  The knowledge base of scenario 1: the context c with the initial parameter x and the
  goal y, x an integer, y one of lo and hi, and the rule that concludes y = hi with factor
  0.9 from x >= 10. It is built as \<^verbatim>\<open>main\<close> builds its own: contexts, parameters, rules.
  \<open>ge\<close> is \<^verbatim>\<open>operator.ge\<close> on integers, the values x can take (Python raises TypeError
  when one side is a string and the other is not; no such comparison occurs here).
\<close>

definition ge :: oper where
  "ge x y = (case (x, y) of (VInt a, VInt b) \<Rightarrow> a \<ge> b | _ \<Rightarrow> False)"

definition param_x :: parameter where
  "param_x = \<lparr>param_name = ''x'', ctx = Some ''c'', enum = None, cls = Some py_int,
     ask_first = False\<rparr>"

definition param_y :: parameter where
  "param_y = \<lparr>param_name = ''y'', ctx = Some ''c'', enum = Some [''lo'', ''hi''], cls = None,
     ask_first = False\<rparr>"

definition scenario_rule :: rule where
  "scenario_rule = \<lparr>num = 1, cf = 9 / 10,
     raw_premises = [(''x'', ''c'', ge, VInt 10)],
     raw_conclusions = [(''y'', ''c'', eq, VStr ''hi'')]\<rparr>"

definition scenario_kb :: shell where
  "scenario_kb =
     define_rule scenario_rule
       (define_param param_y
         (define_param param_x
           (define_context \<lparr>ctx_name = ''c'', count = 0, initial_data = [''x''],
                             goals = [''y'']\<rparr> empty_shell)))"



text \<open>Every certainty factor recorded in a fact store lies in [-1, 1].\<close>

definition store_in_range :: "store \<Rightarrow> bool" where
  "store_in_range st =
     (\<forall>k vs v c. st k = Some vs \<and> (v, c) \<in> set vs \<longrightarrow> - 1 \<le> c \<and> c \<le> 1)"

text \<open>
  How a fact store may differ from an earlier one when only \<^verbatim>\<open>get_vals\<close> has touched it:
  an entry is as it was, or it was absent and is now the empty dict.
\<close>

definition store_ext :: "store \<Rightarrow> store \<Rightarrow> bool" where
  "store_ext st values1 =
     (\<forall>k. values1 k = st k \<or> (st k = None \<and> values1 k = Some []))"

text \<open>The key (parameter, instance) of a bound condition.\<close>

definition cond_key :: "condition \<Rightarrow> string \<times> inst" where
  "cond_key cond = (case cond of (param, inst, op, val) \<Rightarrow> (param, inst))"

section \<open>Properties of the rule engine\<close>

lemmas engine_defs = rule_apply_def rule_applicable_def rule_premises_def rule_conclusions_def
  bind_cond_def eval_condition_def eval_condition_hook_def get_vals_def get_cf_def update_cf_def
  cf_or_def cf_true_def cf_false_def is_cf_def CF_true_def CF_false_def CF_unknown_def
  CF_cutoff_def cf_and_def use_rules_def vals_of_def eq_def empty_shell_def

lemma store_ext_refl: "store_ext st st"
  by (simp add: store_ext_def)

lemma store_ext_trans:
  "store_ext a b \<Longrightarrow> store_ext b c \<Longrightarrow> store_ext a c"
  unfolding store_ext_def by metis

lemma store_ext_vals_of: "store_ext a b \<Longrightarrow> vals_of b k = vals_of a k"
  unfolding store_ext_def vals_of_def by (metis option.simps(4,5))

lemma get_vals_ext: "store_ext st (snd (get_vals st p i))"
  by (simp add: store_ext_def get_vals_def split: option.splits)

lemma first_pass_ext: "store_ext st (snd (first_pass prems st))"
proof (induction prems arbitrary: st)
  case Nil
  then show ?case by (simp add: store_ext_refl)
next
  case (Cons prem rest)
  obtain param inst opr val where p: "prem = (param, inst, opr, val)" by (cases prem) auto
  obtain vs values1 where g: "get_vals st param inst = (vs, values1)" by fastforce
  have e: "store_ext st values1" using get_vals_ext[of st param inst] g by simp
  show ?case
  proof (cases "cf_false (eval_condition prem vs)")
    case True
    then show ?thesis using p g e by simp
  next
    case False
    then show ?thesis using p g e Cons.IH[of values1] by (auto intro: store_ext_trans)
  qed
qed

lemma first_pass_fst:
  "fst (first_pass prems st) =
     list_ex (\<lambda>c. cf_false (eval_condition c (vals_of st (cond_key c)))) prems"
proof (induction prems arbitrary: st)
  case Nil
  then show ?case by simp
next
  case (Cons prem rest)
  obtain param inst opr val where p: "prem = (param, inst, opr, val)" by (cases prem) auto
  obtain vs values1 where g: "get_vals st param inst = (vs, values1)" by fastforce
  have vs: "vs = vals_of st (param, inst)" using get_vals_fst[of st param inst] g by simp
  have e: "\<And>k. vals_of values1 k = vals_of st k"
    using get_vals_vals_of[of st param inst] g by simp
  show ?case using p g vs e Cons.IH[of values1] by (simp add: cond_key_def)
qed

lemma second_pass_no_hook:
  "\<exists>c values1. second_pass None prems t s = Inr (c, s\<lparr>known_values := values1\<rparr>)
      \<and> store_ext (known_values s) values1"
proof (induction prems arbitrary: t s)
  case Nil
  have "s = s\<lparr>known_values := known_values s\<rparr>" by simp
  then show ?case using store_ext_refl by (metis second_pass.simps(1))
next
  case (Cons prem rest)
  obtain param inst opr val where p: "prem = (param, inst, opr, val)" by (cases prem) auto
  obtain vs values1 where g: "get_vals (known_values s) param inst = (vs, values1)" by fastforce
  have e: "store_ext (known_values s) values1"
    using get_vals_ext[of "known_values s" param inst] g by simp
  let ?s1 = "s\<lparr>known_values := values1\<rparr>"
  let ?c = "eval_condition prem (vals_of values1 (param, inst))"
  have ev: "eval_condition_hook prem None ?s1 = Inr (?c, ?s1)"
    using p by (simp add: eval_condition_hook_def)
  show ?case
  proof (cases "cf_true (cf_and t ?c)")
    case False
    then have "second_pass None (prem # rest) t s = Inr (CF_false, ?s1)"
      using p g ev by simp
    then show ?thesis using e by blast
  next
    case True
    then have eq: "second_pass None (prem # rest) t s = second_pass None rest (cf_and t ?c) ?s1"
      using p g ev by simp
    obtain c values2 where r: "second_pass None rest (cf_and t ?c) ?s1 = Inr (c, ?s1\<lparr>known_values := values2\<rparr>)"
      and e2: "store_ext (known_values ?s1) values2"
      using Cons.IH[of "cf_and t ?c" ?s1] by blast
    have "?s1\<lparr>known_values := values2\<rparr> = s\<lparr>known_values := values2\<rparr>" by simp
    moreover have "store_ext (known_values s) values2" using e e2 by (auto intro: store_ext_trans)
    ultimately show ?thesis using eq r by metis
  qed
qed

lemma rule_applicable_no_hook:
  assumes "rule_applicable r None s = Inr (a, s1)"
  shows "\<exists>values1. s1 = s\<lparr>known_values := values1\<rparr> \<and> store_ext (known_values s) values1"
proof -
  obtain prems where pr: "rule_premises r (instances s) = Inr prems"
    using assms by (auto simp: rule_applicable_def split: sum.splits)
  obtain b values1 where fp: "first_pass prems (known_values s) = (b, values1)" by fastforce
  have e1: "store_ext (known_values s) values1"
    using first_pass_ext[of "known_values s" prems] fp by simp
  show ?thesis
  proof (cases b)
    case True
    then have "s1 = s\<lparr>known_values := values1\<rparr>"
      using assms pr fp by (simp add: rule_applicable_def)
    then show ?thesis using e1 by blast
  next
    case False
    let ?s = "s\<lparr>known_values := values1\<rparr>"
    have "second_pass None prems CF_true ?s = Inr (a, s1)"
      using assms pr fp False by (simp add: rule_applicable_def)
    moreover obtain c values2 where "second_pass None prems CF_true ?s = Inr (c, ?s\<lparr>known_values := values2\<rparr>)"
      and e2: "store_ext (known_values ?s) values2"
      using second_pass_no_hook[of prems CF_true ?s] by blast
    ultimately have "s1 = s\<lparr>known_values := values2\<rparr>" by simp
    moreover have "store_ext (known_values s) values2" using e1 e2 by (auto intro: store_ext_trans)
    ultimately show ?thesis by blast
  qed
qed

text \<open>
  C4, as the code has it. The claim says that a rule that does not fire leaves the fact
  store unchanged, with no (parameter, instance) entry added. \<^verbatim>\<open>Rule.applicable\<close> reads
  the store through \<^verbatim>\<open>get_vals\<close>, which creates the entry of every premise it looks at:
  in the counterexample the rule has one premise on x, the store is empty, the effective
  certainty is 0.9 * -1.0, \<^verbatim>\<open>apply\<close> returns False, and the store then holds the entry
  (x, c-0) with an empty dict.
\<close>

theorem apply_not_fired_counterexample:
  "known_values session_c (''x'', (''c'', 0)) = None
   \<and> map_sum id fst (rule_applicable rule_x None session_c) = Inr (- 1)
   \<and> \<not> cf_true (cf rule_x * (- 1))
   \<and> map_sum id (\<lambda>(b, s). (b, known_values s (''x'', (''c'', 0))))
        (rule_apply rule_x None None session_c) = Inr (False, Some [])"
  by (simp add: engine_defs session_c_def rule_x_def)

text \<open>
  C4, amended. When the effective certainty (the rule's factor times the result of
  \<^verbatim>\<open>applicable\<close>) is not \<^verbatim>\<open>cf_true\<close>, \<^verbatim>\<open>Rule.apply\<close> returns False and accumulates none of
  its conclusions: the state it leaves is the one \<^verbatim>\<open>applicable\<close> left. With no
  \<^verbatim>\<open>find_out\<close> hook, that state differs from the one \<^verbatim>\<open>applicable\<close> started in (after the
  observer \<^verbatim>\<open>track\<close>) by the fact store only, and there only by entries that were absent
  and are now empty dicts: no value-to-CF binding is added or modified.
\<close>

theorem apply_not_fired:
  assumes "rule_applicable r fo (case track of None \<Rightarrow> s | Some t \<Rightarrow> t r s) = Inr (a, s1)"
    and "\<not> cf_true (cf r * a)"
  shows "rule_apply r fo track s = Inr (False, s1)
       \<and> (fo = None \<longrightarrow>
            (\<exists>values1. s1 = (case track of None \<Rightarrow> s | Some t \<Rightarrow> t r s)\<lparr>known_values := values1\<rparr>
               \<and> store_ext (known_values (case track of None \<Rightarrow> s | Some t \<Rightarrow> t r s)) values1))"
  using assms rule_applicable_no_hook[of r "case track of None \<Rightarrow> s | Some t \<Rightarrow> t r s" a s1]
  by (auto simp: rule_apply_def)

theorem apply_not_fired_witness:
  "rule_applicable rule_x None session_c
     = Inr (- 1, session_c\<lparr>known_values := [(''x'', (''c'', 0)) \<mapsto> []]\<rparr>)
   \<and> \<not> cf_true (cf rule_x * (- 1))
   \<and> rule_apply rule_x None None session_c
     = Inr (False, session_c\<lparr>known_values := [(''x'', (''c'', 0)) \<mapsto> []]\<rparr>)"
proof -
  have a: "rule_applicable rule_x None (case None of None \<Rightarrow> session_c | Some t \<Rightarrow> t rule_x session_c)
     = Inr (- 1, session_c\<lparr>known_values := [(''x'', (''c'', 0)) \<mapsto> []]\<rparr>)"
    by (simp add: engine_defs session_c_def rule_x_def)
  have b: "\<not> cf_true (cf rule_x * (- 1))"
    by (simp add: engine_defs rule_x_def)
  show ?thesis using apply_not_fired[OF a b] a b by simp
qed

text \<open>
  C6. When one of the bound premises of a rule has a condition certainty that is
  \<^verbatim>\<open>cf_false\<close> on the facts at hand, \<^verbatim>\<open>Rule.applicable\<close> returns -1.0, and the state it
  leaves is the one of its first loop, whatever the hook is: the hook is not invoked for
  any premise. That state differs from the one before by empty entries of the fact store
  only. In the witness the hook raises whenever it is called, the premises are
  [A, B, D] and A is false.
\<close>

theorem applicable_false_premise:
  assumes "rule_premises r (instances s) = Inr prems"
    and "list_ex (\<lambda>c. cf_false (eval_condition c (vals_of (known_values s) (cond_key c)))) prems"
  shows "rule_applicable r fo s
           = Inr (- 1, s\<lparr>known_values := snd (first_pass prems (known_values s))\<rparr>)
       \<and> store_ext (known_values s) (snd (first_pass prems (known_values s)))"
proof -
  have "fst (first_pass prems (known_values s))" using assms(2) first_pass_fst by simp
  then obtain values1 where "first_pass prems (known_values s) = (True, values1)"
    by (cases "first_pass prems (known_values s)") auto
  then show ?thesis
    using assms(1) first_pass_ext[of "known_values s" prems]
    by (simp add: rule_applicable_def CF_false_def)
qed

theorem applicable_false_premise_witness:
  "rule_applicable rule_abc (Some (\<lambda>param inst s. Inl RecursionError)) session_a
     = Inr (- 1, session_a)"
proof -
  have a: "rule_premises rule_abc (instances session_a)
             = Inr [(''a'', (''c'', 0), eq, VStr ''yes''), (''b'', (''c'', 0), eq, VStr ''yes''),
                    (''d'', (''c'', 0), eq, VStr ''yes'')]"
    by (simp add: engine_defs session_a_def session_c_def rule_abc_def)
  have b: "list_ex (\<lambda>c. cf_false (eval_condition c (vals_of (known_values session_a) (cond_key c))))
             [(''a'', (''c'', 0), eq, VStr ''yes''), (''b'', (''c'', 0), eq, VStr ''yes''),
              (''d'', (''c'', 0), eq, VStr ''yes'')]"
    by (simp add: engine_defs session_a_def session_c_def cond_key_def)
  show ?thesis
    using applicable_false_premise[OF a b, of "Some (\<lambda>param inst s. Inl RecursionError)"]
    by (simp add: engine_defs session_a_def session_c_def)
qed

lemma apply_each_append:
  "apply_each (rs1 @ rs2) fo tr s =
     (case apply_each rs1 fo tr s of
        Inl e \<Rightarrow> Inl e
      | Inr (bs1, s1) \<Rightarrow>
          (case apply_each rs2 fo tr s1 of
             Inl e \<Rightarrow> Inl e
           | Inr (bs2, s2) \<Rightarrow> Inr (bs1 @ bs2, s2)))"
  by (induction rs1 arbitrary: s) (auto split: sum.splits)

text \<open>
  C1, as the code has it. The claim says that \<^verbatim>\<open>use_rules\<close> stops at the first rule that
  fires. \<^verbatim>\<open>use_rules\<close> builds the list of all the results before \<^verbatim>\<open>any\<close> reads it: in
  the counterexample the first rule fires (it concludes hi), and the conclusion of the
  second rule (lo) is in the fact store afterwards all the same.
\<close>

theorem use_rules_first_fires_counterexample:
  "map_sum id fst (rule_apply rule_hi None None session_c) = Inr True
   \<and> map_sum id (\<lambda>(b, s). (b, vals_of (known_values s) (''y'', (''c'', 0))))
        (use_rules [rule_hi, rule_lo] None None session_c)
      = Inr (True, [(VStr ''hi'', 1 / 2), (VStr ''lo'', 1 / 2)])"
  by (simp add: engine_defs session_c_def rule_hi_def rule_lo_def)

text \<open>
  C1, amended. \<^verbatim>\<open>use_rules\<close> applies every rule of the list, in order, each in the state
  the one before it left, whether or not an earlier rule has fired; it returns True if and
  only if at least one of them fired (False for the empty list).
\<close>

theorem use_rules_applies_every_rule:
  "use_rules [] fo tr s = Inr (False, s)
   \<and> use_rules (r # rs) fo tr s =
       (case rule_apply r fo tr s of
          Inl e \<Rightarrow> Inl e
        | Inr (fired, s1) \<Rightarrow>
            (case use_rules rs fo tr s1 of
               Inl e \<Rightarrow> Inl e
             | Inr (later, s2) \<Rightarrow> Inr (fired \<or> later, s2)))"
  by (auto simp: use_rules_def split: sum.splits)

theorem use_rules_applies_every_rule_witness:
  "map_sum id fst (use_rules [rule_x, rule_hi] None None session_c) = Inr True"
  using use_rules_applies_every_rule[of None None session_c rule_x "[rule_hi]"]
    use_rules_applies_every_rule[of None None _ rule_hi "[]"]
  by (simp add: engine_defs session_c_def rule_hi_def rule_x_def)

section \<open>Properties of the shell\<close>

lemmas shell_defs = execute_def clear_def write_line_def instantiate_def ctx_instantiate_def
  set_current_rule_def find_out_body_def get_param_def get_rules_def rules_path_def
  mark_known_def ask_values_def parse_reply_def from_string_def py_int_def py_float_def
  split_sign_def strip_def is_space_def digit_of_def deref_def define_rule_def
  define_context_def define_param_def type_string_def print_why_def

lemmas scenario_defs = scenario_kb_def scenario_rule_def param_x_def param_y_def ge_def

lemma find_out_body_known:
  assumes "(param, case inst of Some i \<Rightarrow> Some i | None \<Rightarrow> current_inst s) \<in> known s"
  shows "find_out_body h param inst s = Inr (True, s)"
  using assms by (simp add: find_out_body_def)

text \<open>
  C7. When (p, i) is in the known set (i being the current instance when the call gives
  none), \<^verbatim>\<open>find_out\<close> returns True and the state is the one it was called in: nothing is
  read from or sent to the port, no rule is applied (the current rule is unchanged, and
  the result is the same for every hook, also at depth 0 where any nested call would
  fail), and the fact store, the known set and the asked set are unchanged.
\<close>

theorem find_out_known:
  assumes "(param, case inst of Some i \<Rightarrow> Some i | None \<Rightarrow> current_inst s) \<in> known s"
  shows "find_out n param inst s = Inr (True, s) \<and> find_out_body h param inst s = Inr (True, s)"
  using find_out_body_known[OF assms] by (cases n) simp_all

theorem find_out_known_witness:
  "find_out 0 ''x'' None session_k = Inr (True, session_k)
   \<and> find_out 3 ''x'' (Some (''c'', 0)) session_k = Inr (True, session_k)"
proof -
  have a: "(''x'', case None of Some i \<Rightarrow> Some i | None \<Rightarrow> current_inst session_k) \<in> known session_k"
    by (simp add: session_k_def session_c_def empty_shell_def)
  have b: "(''x'', case Some (''c'', 0) of Some i \<Rightarrow> Some i | None \<Rightarrow> current_inst session_k) \<in> known session_k"
    by (simp add: session_k_def session_c_def empty_shell_def)
  show ?thesis using find_out_known[OF a, of 0] find_out_known[OF b, of 3] by simp
qed

lemma find_out_known_any_depth:
  assumes "(param, case inst of Some i \<Rightarrow> Some i | None \<Rightarrow> current_inst s) \<in> known s"
  shows "find_out n param inst s = Inr (True, s)"
  using find_out_body_known[OF assms] by (cases n) simp_all

text \<open>
  C3. On the knowledge base of scenario 1, when the port answers the question for x with
  15, \<^verbatim>\<open>execute(["c"])\<close> returns the mapping whose only entry is keyed by the instance
  (c, 0) and maps y to the value map {hi: 0.9}. This holds at every depth bound that
  allows one nested call, and whatever responses the port would have given after 15: the
  witness shows that none is read and that x is the only question asked.
\<close>

theorem scenario_1:
  "map_sum id fst (execute (Suc n) [''c''] (scenario_kb\<lparr>inp := ''15'' # rest\<rparr>))
     = Inr [((''c'', 0), [(''y'', [(VStr ''hi'', 9 / 10)])])]"
  by (simp add: shell_defs engine_defs scenario_defs find_out_known_any_depth)

theorem scenario_1_witness:
  "map_sum id (\<lambda>(r, s). (r, inp s, out s))
     (execute 1 [''c''] (scenario_kb\<lparr>inp := [''15'']\<rparr>))
     = Inr ([((''c'', 0), [(''y'', [(VStr ''hi'', 9 / 10)])])], [],
            [Banner, Prompt ''x'' (''c'', 0)])"
  using scenario_1[of 0 "[]"]
  by (simp add: shell_defs engine_defs scenario_defs)

text \<open>
  Rule application keeps the recorded certainty factors in [-1, 1]: \<^verbatim>\<open>update_cf\<close> does when
  the new evidence is in range, and \<^verbatim>\<open>Rule.apply\<close> only concludes with a certainty that has
  passed \<^verbatim>\<open>cf_true\<close>, hence \<^verbatim>\<open>is_cf\<close>.
\<close>

lemma store_in_range_upd:
  assumes "store_in_range st" "\<forall>(v, c) \<in> set vs. - 1 \<le> c \<and> c \<le> 1"
  shows "store_in_range (st(k \<mapsto> vs))"
  unfolding store_in_range_def
proof (intro allI impI)
  fix k1 vs1 v c
  assume a: "(st(k \<mapsto> vs)) k1 = Some vs1 \<and> (v, c) \<in> set vs1"
  show "- 1 \<le> c \<and> c \<le> 1"
  proof (cases "k1 = k")
    case True
    then have "(v, c) \<in> set vs" using a by simp
    then show ?thesis using assms(2) by blast
  next
    case False
    then have "st k1 = Some vs1 \<and> (v, c) \<in> set vs1" using a by simp
    then show ?thesis using assms(1) unfolding store_in_range_def by blast
  qed
qed

lemma store_in_range_vals_of:
  assumes "store_in_range st" "(v, c) \<in> set (vals_of st k)"
  shows "- 1 \<le> c \<and> c \<le> 1"
proof (cases "st k")
  case None
  then show ?thesis using assms(2) by (simp add: vals_of_def)
next
  case (Some vs)
  then have "(v, c) \<in> set vs" using assms(2) by (simp add: vals_of_def)
  then show ?thesis using assms(1) Some unfolding store_in_range_def by blast
qed

lemma get_vals_in_range: "store_in_range st \<Longrightarrow> store_in_range (snd (get_vals st p i))"
  by (auto simp: get_vals_def store_in_range_upd split: option.splits)

lemma get_cf_in_range:
  assumes "store_in_range st"
  shows "store_in_range (snd (get_cf st p i v))"
proof (cases "map_of (vals_of st (p, i)) v")
  case None
  obtain vs st1 where g: "get_vals st p i = (vs, st1)" by fastforce
  have vs: "vs = vals_of st (p, i)" using get_vals_fst[of st p i] g by simp
  have "- 1 \<le> c \<and> c \<le> 1" if "(w, c) \<in> set (vals_of st (p, i) @ [(v, CF_unknown)])" for w c
    using that store_in_range_vals_of[OF assms, of w c "(p, i)"] by (auto simp: CF_unknown_def)
  then have "\<forall>(w, c) \<in> set (vals_of st (p, i) @ [(v, CF_unknown)]). - 1 \<le> c \<and> c \<le> 1"
    by blast
  then have "store_in_range ((snd (get_vals st p i))((p, i) \<mapsto> vals_of st (p, i) @ [(v, CF_unknown)]))"
    using get_vals_in_range[OF assms] store_in_range_upd by blast
  moreover have "get_cf st p i v
      = (CF_unknown, (snd (get_vals st p i))((p, i) \<mapsto> vals_of st (p, i) @ [(v, CF_unknown)]))"
    using None g vs by (simp add: get_cf_def)
  ultimately show ?thesis by simp
next
  case (Some c)
  obtain vs st1 where g: "get_vals st p i = (vs, st1)" by fastforce
  have vs: "vs = vals_of st (p, i)" using get_vals_fst[of st p i] g by simp
  have "get_cf st p i v = (c, snd (get_vals st p i))"
    using Some g vs by (simp add: get_cf_def)
  then show ?thesis using get_vals_in_range[OF assms] by simp
qed

lemma stored_cf_in_range:
  assumes "store_in_range st"
  shows "- 1 \<le> stored_cf st p i v \<and> stored_cf st p i v \<le> 1"
proof (cases "map_of (vals_of st (p, i)) v")
  case None
  then show ?thesis by (simp add: stored_cf_def CF_unknown_def)
next
  case (Some c)
  then have "(v, c) \<in> set (vals_of st (p, i))" by (rule map_of_SomeD)
  then show ?thesis using store_in_range_vals_of[OF assms] Some by (simp add: stored_cf_def)
qed

lemma set_alist_update: "set (AList.update k v al) \<subseteq> insert (k, v) (set al)"
  by (induction al) auto

lemma update_cf_in_range:
  assumes "store_in_range st" "- 1 \<le> c" "c \<le> 1"
  shows "store_in_range (snd (update_cf st p i v c))"
proof (cases "cf_or (stored_cf st p i v) c")
  case (Inl e)
  then show ?thesis using get_cf_in_range[OF assms(1)] by (simp add: update_cf_unfold)
next
  case (Inr u)
  let ?st1 = "snd (get_cf st p i v)"
  have r1: "store_in_range ?st1" by (rule get_cf_in_range[OF assms(1)])
  have u: "- 1 \<le> u \<and> u \<le> 1"
    using cf_or_in_range[OF _ _ assms(2,3) Inr] stored_cf_in_range[OF assms(1)] by blast
  have "- 1 \<le> d \<and> d \<le> 1" if "(w, d) \<in> set (AList.update v u (vals_of ?st1 (p, i)))" for w d
  proof -
    have "(w, d) = (v, u) \<or> (w, d) \<in> set (vals_of ?st1 (p, i))"
      using that set_alist_update[of v u "vals_of ?st1 (p, i)"] by blast
    then show ?thesis using u store_in_range_vals_of[OF r1, of w d "(p, i)"] by auto
  qed
  then have "\<forall>(w, d) \<in> set (AList.update v u (vals_of ?st1 (p, i))). - 1 \<le> d \<and> d \<le> 1"
    by blast
  then have "store_in_range (?st1((p, i) \<mapsto> AList.update v u (vals_of ?st1 (p, i))))"
    using r1 store_in_range_upd by blast
  then show ?thesis using Inr by (simp add: update_cf_unfold)
qed

lemma conclude_in_range:
  assumes "- 1 \<le> c" "c \<le> 1"
  shows "store_in_range st \<Longrightarrow> conclude concls c st = Inr st1 \<Longrightarrow> store_in_range st1"
proof (induction concls arbitrary: st)
  case Nil
  then show ?case by simp
next
  case (Cons concl rest)
  obtain param inst opr val where p: "concl = (param, inst, opr, val)" by (cases concl) auto
  obtain e st2 where u: "update_cf st param inst val c = (e, st2)" by fastforce
  have "store_in_range st2"
    using update_cf_in_range[OF Cons.prems(1) assms, of param inst val] u by simp
  moreover have "conclude rest c st2 = Inr st1"
    using Cons.prems(2) p u by (cases e) auto
  ultimately show ?case by (rule Cons.IH)
qed

lemma rule_apply_in_range:
  assumes "rule_applicable r fo (case track of None \<Rightarrow> s | Some t \<Rightarrow> t r s) = Inr (a, s1)"
    and "store_in_range (known_values s1)"
    and "rule_apply r fo track s = Inr (b, s2)"
  shows "store_in_range (known_values s2)"
proof (cases "cf_true (cf r * a)")
  case False
  then show ?thesis using assms by (simp add: rule_apply_def)
next
  case True
  then have c: "- 1 \<le> cf r * a" "cf r * a \<le> 1"
    by (simp_all add: cf_true_def is_cf_def CF_false_def CF_true_def)
  from assms(1,3) True obtain concls st1 where
    "conclude concls (cf r * a) (known_values s1) = Inr st1" and "s2 = s1\<lparr>known_values := st1\<rparr>"
    by (auto simp: rule_apply_def split: sum.splits)
  then show ?thesis using conclude_in_range[OF c assms(2)] by simp
qed

text \<open>
  C2, the code at the failing input. The claim says that every stored certainty factor
  lies in [-1, 1]. On the knowledge base of scenario 1 the port answers 5 for x, so the
  rule does not fire and y is asked for; the response gives hi the certainty 5.
  \<^verbatim>\<open>parse_reply\<close> accepts any float and \<^verbatim>\<open>update_cf\<close> stores \<^verbatim>\<open>cf_or(0.0, 5.0) = 5.0\<close>: the
  returned fact-store entry of y holds hi with 5, outside [-1, 1] (\<^verbatim>\<open>is_cf(5.0)\<close> is false).
  The path through the rules checks the range (\<open>rule_apply_in_range\<close>); this one does not.
\<close>

theorem user_cf_out_of_range:
  "map_sum id fst (execute 1 [''c''] (scenario_kb\<lparr>inp := [''5'', ''hi 5, lo 1'']\<rparr>))
     = Inr [((''c'', 0), [(''y'', [(VStr ''hi'', 5), (VStr ''lo'', 1)])])]"
  by (simp add: shell_defs engine_defs scenario_defs)



















end
